theory Spec2Isabelle
  imports Complex_Main "HOL-Library.Word"
begin

section \<open>Weighted-graph construction of the matching decoder\<close>

text \<open>
  This theory embeds the graph-construction code of \<^verbatim>\<open>stim_io.cc\<close>
  (\<^verbatim>\<open>merge_weights\<close>, \<^verbatim>\<open>IntermediateWeightedGraph::add_or_merge_edge\<close>,
  \<^verbatim>\<open>add_or_merge_boundary_edge\<close>, \<^verbatim>\<open>handle_dem_instruction\<close>, \<^verbatim>\<open>to_matching_graph\<close>,
  \<^verbatim>\<open>to_search_graph\<close>, \<^verbatim>\<open>to_mwpm\<close> and \<^verbatim>\<open>detector_error_model_to_weighted_graph\<close>).

  Conventions of the embedding:
  \<^item> \<^verbatim>\<open>size_t\<close> is a 64-bit word, so \<open>+\<close> and \<open>-\<close> wrap around as in the C++.
  \<^item> \<^verbatim>\<open>double\<close> is modelled by \<open>real\<close>: arithmetic is exact, and there is no rounding,
    no infinity and no NaN. Statements about weights are statements about the
    expressions of the code read over the reals. The one statement that rounding and
    overflow decide is settled on a second reading of \<^verbatim>\<open>merge_weights\<close>, in IEEE 754
    double arithmetic (\<open>merge_weights_fp\<close>).
  \<^item> A pointer \<^verbatim>\<open>&nodes[j]\<close> into the node vector is the index \<open>Some j\<close>; \<^verbatim>\<open>nullptr\<close>
    (the boundary) is \<open>None\<close>. The outer vector is never resized by the operations
    below, so the pointers stay valid and identify the nodes.
  \<^item> A \<^verbatim>\<open>throw std::invalid_argument\<close> is the result \<open>Inl (InvalidArgument \<dots>)\<close>.
    An unchecked \<^verbatim>\<open>operator[]\<close> beyond the end of a vector is undefined behaviour in
    C++; the model makes it the distinct result \<open>Inl OutOfBounds\<close>.
\<close>

subsection \<open>Data model\<close>

type_synonym size_t = "64 word"

record Neighbor =
  node :: "nat option"
  weight :: real
  observables :: "size_t list"

record IntermediateWeightedGraph =
  nodes :: "Neighbor list list"
  num_nodes :: size_t
  num_observables :: size_t

text \<open>
  \<open>InvalidArgument n k\<close> carries the two numbers of the exception's message:
  the offending node and the field \<^verbatim>\<open>num_nodes\<close>.
\<close>

datatype error = InvalidArgument size_t size_t | OutOfBounds

text \<open>\<^verbatim>\<open>std::vector::size()\<close>, a \<^verbatim>\<open>size_t\<close>.\<close>

definition vector_size :: "'a list \<Rightarrow> size_t" where
  "vector_size xs = of_nat (length xs)"

text \<open>The size of a \<^verbatim>\<open>std::vector\<close> always fits its \<^verbatim>\<open>size_t\<close>.\<close>

definition fits_size_t :: "IntermediateWeightedGraph \<Rightarrow> bool" where
  "fits_size_t g \<longleftrightarrow> length (nodes g) < 2 ^ 64"

text \<open>
  \<^verbatim>\<open>std::find_if\<close>: the position of the first element that satisfies the predicate,
  \<open>None\<close> for \<^verbatim>\<open>end()\<close>.
\<close>

fun find_if :: "('a \<Rightarrow> bool) \<Rightarrow> 'a list \<Rightarrow> nat option" where
  "find_if P [] = None"
| "find_if P (x # xs) = (if P x then Some 0 else map_option Suc (find_if P xs))"

subsection \<open>Merging weights\<close>

text \<open>\<^verbatim>\<open>std::copysign(1, a)\<close> on the reals (there is no negative zero).\<close>

definition copysign1 :: "real \<Rightarrow> real" where
  "copysign1 a = (if a < 0 then - 1 else 1)"

definition merge_weights :: "real \<Rightarrow> real \<Rightarrow> real" where
  "merge_weights a b =
     (let sgn = copysign1 a * copysign1 b;
          signed_min = sgn * min \<bar>a\<bar> \<bar>b\<bar>
      in signed_min + ln (1 + exp (- \<bar>a + b\<bar>)) - ln (1 + exp (- \<bar>a - b\<bar>)))"

text \<open>
  The weight \<^verbatim>\<open>std::log((1 - p) / p)\<close> of an error mechanism. For \<open>0 < p < 1\<close> the
  quotient is positive and the logarithm is the real one. Outside that interval the
  C++ value is infinite or NaN, which \<open>real\<close> does not have; no statement below speaks
  about the weight there.
\<close>

definition log_odds :: "real \<Rightarrow> real" where
  "log_odds p = ln ((1 - p) / p)"

subsection \<open>Adding and merging edges\<close>

definition add_or_merge_edge ::
  "size_t \<Rightarrow> size_t \<Rightarrow> real \<Rightarrow> size_t list \<Rightarrow> IntermediateWeightedGraph
     \<Rightarrow> error + IntermediateWeightedGraph" where
  "add_or_merge_edge u v w obs g =
     (let larger_node = max u v in
      if larger_node + 1 > vector_size (nodes g)
      then Inl (InvalidArgument larger_node (num_nodes g))
      else if length (nodes g) \<le> unat u \<or> length (nodes g) \<le> unat v
      then Inl OutOfBounds
      else
        (case find_if (\<lambda>neighbor. node neighbor = Some (unat v)) (nodes g ! unat u) of
           None \<Rightarrow>
             (let ns1 = (nodes g)[unat u := nodes g ! unat u @
                          [\<lparr>node = Some (unat v), weight = w, observables = obs\<rparr>]];
                  ns2 = ns1[unat v := ns1 ! unat v @
                          [\<lparr>node = Some (unat u), weight = w, observables = obs\<rparr>]]
              in Inr (g\<lparr>nodes := ns2\<rparr>))
         | Some i \<Rightarrow>
             (let new_weight = merge_weights (weight (nodes g ! unat u ! i)) w;
                  ns1 = (nodes g)[unat u :=
                          (nodes g ! unat u)[i := (nodes g ! unat u ! i)\<lparr>weight := new_weight\<rparr>]]
              in \<comment> \<open>\<^verbatim>\<open>(*it).node\<close> is \<^verbatim>\<open>&nodes[v]\<close>, by the search that found \<^verbatim>\<open>it\<close>\<close>
                (case find_if (\<lambda>neighbor. node neighbor = Some (unat u)) (ns1 ! unat v) of
                   None \<Rightarrow> Inr (g\<lparr>nodes := ns1\<rparr>)
                 | Some j \<Rightarrow>
                     Inr (g\<lparr>nodes := ns1[unat v :=
                            (ns1 ! unat v)[j := (ns1 ! unat v ! j)\<lparr>weight := new_weight\<rparr>]]\<rparr>)))))"

definition add_or_merge_boundary_edge ::
  "size_t \<Rightarrow> real \<Rightarrow> size_t list \<Rightarrow> IntermediateWeightedGraph
     \<Rightarrow> error + IntermediateWeightedGraph" where
  "add_or_merge_boundary_edge u w obs g =
     (if u > vector_size (nodes g) - 1
      then Inl (InvalidArgument u (num_nodes g))
      else if length (nodes g) \<le> unat u
      then Inl OutOfBounds
      else
        (case find_if (\<lambda>neighbor. node neighbor = None) (nodes g ! unat u) of
           None \<Rightarrow>
             Inr (g\<lparr>nodes := (nodes g)[unat u := nodes g ! unat u @
                    [\<lparr>node = None, weight = w, observables = obs\<rparr>]]\<rparr>)
         | Some i \<Rightarrow>
             Inr (g\<lparr>nodes := (nodes g)[unat u :=
                    (nodes g ! unat u)[i := (nodes g ! unat u ! i)
                       \<lparr>weight := merge_weights w (weight (nodes g ! unat u ! i))\<rparr>]]\<rparr>)))"

definition handle_dem_instruction ::
  "real \<Rightarrow> size_t list \<Rightarrow> size_t list \<Rightarrow> IntermediateWeightedGraph
     \<Rightarrow> error + IntermediateWeightedGraph" where
  "handle_dem_instruction p detectors obs g =
     (if length detectors = 2
      then add_or_merge_edge (detectors ! 0) (detectors ! 1) (log_odds p) obs g
      else if length detectors = 1
      then add_or_merge_boundary_edge (detectors ! 0) (log_odds p) obs g
      else Inr g)"

subsection \<open>From a detector error model to the weighted graph\<close>

text \<open>
  The interface of the error-model library that the code uses. A target of an error
  instruction is a relative detector id, an observable id or a separator; \<^verbatim>\<open>val()\<close>
  is the number it carries. \<^verbatim>\<open>iter_flatten_error_instructions\<close> calls its argument
  on every error instruction of the flattened model, in order: the model is given here
  with the list of these instructions.
\<close>

datatype DemTarget = RelativeDetectorId size_t | ObservableId size_t | Separator

record DemInstruction =
  arg_data :: "real list"
  target_data :: "DemTarget list"

record DetectorErrorModel =
  count_detectors :: size_t
  count_observables :: size_t
  flattened_error_instructions :: "DemInstruction list"

text \<open>
  Calling a function that may throw on each element of a sequence: the first
  exception ends the iteration.
\<close>

fun fold_err :: "('a \<Rightarrow> 's \<Rightarrow> error + 's) \<Rightarrow> 'a list \<Rightarrow> 's \<Rightarrow> error + 's" where
  "fold_err f [] s = Inr s"
| "fold_err f (x # xs) s = (case f x s of Inl e \<Rightarrow> Inl e | Inr s' \<Rightarrow> fold_err f xs s')"

text \<open>
  The loop over \<^verbatim>\<open>instruction.target_data\<close> in the callback of
  \<^verbatim>\<open>detector_error_model_to_weighted_graph\<close>. The state is the two local vectors
  \<^verbatim>\<open>dets\<close> and \<^verbatim>\<open>observables\<close> and the graph.
\<close>

fun dem_targets_loop ::
  "real \<Rightarrow> DemTarget list \<Rightarrow> size_t list \<Rightarrow> size_t list \<Rightarrow> IntermediateWeightedGraph
     \<Rightarrow> error + (size_t list \<times> size_t list \<times> IntermediateWeightedGraph)" where
  "dem_targets_loop p [] dets obs g = Inr (dets, obs, g)"
| "dem_targets_loop p (RelativeDetectorId d # ts) dets obs g =
     dem_targets_loop p ts (dets @ [d]) obs g"
| "dem_targets_loop p (ObservableId l # ts) dets obs g =
     dem_targets_loop p ts dets (obs @ [l]) g"
| "dem_targets_loop p (Separator # ts) dets obs g =
     (if p > 0
      then (case handle_dem_instruction p dets obs g of
              Inl e \<Rightarrow> Inl e
            | Inr g' \<Rightarrow> dem_targets_loop p ts [] [] g')
      else dem_targets_loop p ts dets obs g)"

text \<open>The callback itself. \<^verbatim>\<open>arg_data[0]\<close> is read unchecked.\<close>

definition dem_instruction_callback ::
  "DemInstruction \<Rightarrow> IntermediateWeightedGraph \<Rightarrow> error + IntermediateWeightedGraph" where
  "dem_instruction_callback instruction g =
     (case arg_data instruction of
        [] \<Rightarrow> Inl OutOfBounds
      | p # _ \<Rightarrow>
          (case dem_targets_loop p (target_data instruction) [] [] g of
             Inl e \<Rightarrow> Inl e
           | Inr (dets, obs, g') \<Rightarrow>
               if p > 0 then handle_dem_instruction p dets obs g' else Inr g'))"

text \<open>
  The constructor \<^verbatim>\<open>IntermediateWeightedGraph(num_nodes, num_observables)\<close> is declared
  in a header outside the files embedded here; it is the parameter \<open>new_graph\<close>.
\<close>

definition detector_error_model_to_weighted_graph ::
  "(size_t \<Rightarrow> size_t \<Rightarrow> IntermediateWeightedGraph) \<Rightarrow> DetectorErrorModel
     \<Rightarrow> error + IntermediateWeightedGraph" where
  "detector_error_model_to_weighted_graph new_graph detector_error_model =
     fold_err dem_instruction_callback (flattened_error_instructions detector_error_model)
       (new_graph (count_detectors detector_error_model) (count_observables detector_error_model))"

subsection \<open>From the weighted graph to the decoder\<close>

text \<open>
  \<^verbatim>\<open>to_matching_graph\<close>, \<^verbatim>\<open>to_search_graph\<close> and \<^verbatim>\<open>to_mwpm\<close> are written in terms of
  classes and a template whose code is outside the files embedded here:
  \<^verbatim>\<open>iter_discretized_edges\<close>, \<^verbatim>\<open>MatchingGraph\<close>, \<^verbatim>\<open>SearchGraph\<close>, \<^verbatim>\<open>GraphFlooder\<close>,
  \<^verbatim>\<open>SearchFlooder\<close>, the integer types \<^verbatim>\<open>weight_int\<close>, \<^verbatim>\<open>signed_weight_int\<close> and
  \<^verbatim>\<open>obs_int\<close>. They are parameters of the embedding, collected in one record; the types
  are type variables. \<^verbatim>\<open>iter_discretized_edges\<close> is given by the sequence of calls it
  makes to its two callbacks and by the constant it returns.
\<close>

datatype 'swi discretized_edge =
  Edge size_t size_t 'swi "size_t list"
| BoundaryEdge size_t 'swi "size_t list"

record ('wi, 'swi, 'mg, 'sg, 'gf, 'sf) collaborators =
  iter_discretized_edges :: "IntermediateWeightedGraph \<Rightarrow> 'wi \<Rightarrow> 'swi discretized_edge list \<times> real"
  MatchingGraph_new :: "size_t \<Rightarrow> size_t \<Rightarrow> 'mg"
  MatchingGraph_add_edge :: "size_t \<Rightarrow> size_t \<Rightarrow> 'swi \<Rightarrow> size_t list \<Rightarrow> 'mg \<Rightarrow> 'mg"
  MatchingGraph_add_boundary_edge :: "size_t \<Rightarrow> 'swi \<Rightarrow> size_t list \<Rightarrow> 'mg \<Rightarrow> 'mg"
  MatchingGraph_set_normalising_constant :: "real \<Rightarrow> 'mg \<Rightarrow> 'mg"
  SearchGraph_new :: "size_t \<Rightarrow> 'sg"
  SearchGraph_add_edge :: "size_t \<Rightarrow> size_t \<Rightarrow> 'swi \<Rightarrow> size_t list \<Rightarrow> 'sg \<Rightarrow> 'sg"
  SearchGraph_add_boundary_edge :: "size_t \<Rightarrow> 'swi \<Rightarrow> size_t list \<Rightarrow> 'sg \<Rightarrow> 'sg"
  GraphFlooder_new :: "'mg \<Rightarrow> 'gf"
  SearchFlooder_new :: "'sg \<Rightarrow> 'sf"
  sync_negative_weight_observables_and_detection_events :: "'gf \<Rightarrow> 'gf"
  sizeof_obs_int :: size_t

definition to_matching_graph ::
  "('wi, 'swi, 'mg, 'sg, 'gf, 'sf) collaborators \<Rightarrow> IntermediateWeightedGraph \<Rightarrow> 'wi \<Rightarrow> 'mg" where
  "to_matching_graph ext g num_distinct_weights =
     (let matching_graph = MatchingGraph_new ext (vector_size (nodes g)) (num_observables g);
          (calls, normalising_constant) = iter_discretized_edges ext g num_distinct_weights;
          matching_graph' =
            fold (\<lambda>call mg. case call of
                     Edge u v w obs \<Rightarrow> MatchingGraph_add_edge ext u v w obs mg
                   | BoundaryEdge u w obs \<Rightarrow> MatchingGraph_add_boundary_edge ext u w obs mg)
              calls matching_graph
      in MatchingGraph_set_normalising_constant ext normalising_constant matching_graph')"

definition to_search_graph ::
  "('wi, 'swi, 'mg, 'sg, 'gf, 'sf) collaborators \<Rightarrow> IntermediateWeightedGraph \<Rightarrow> 'wi \<Rightarrow> 'sg" where
  "to_search_graph ext g num_distinct_weights =
     (let search_graph = SearchGraph_new ext (vector_size (nodes g));
          (calls, normalising_constant) = iter_discretized_edges ext g num_distinct_weights
      in fold (\<lambda>call sg. case call of
                  Edge u v w obs \<Rightarrow> SearchGraph_add_edge ext u v w obs sg
                | BoundaryEdge u w obs \<Rightarrow> SearchGraph_add_boundary_edge ext u w obs sg)
           calls search_graph)"

text \<open>
  Modelled from the spec: the class \<^verbatim>\<open>Mwpm\<close> and its two constructors are outside
  the files embedded here. An \<^verbatim>\<open>Mwpm\<close> holds the matching flooder in its field
  \<^verbatim>\<open>flooder\<close> and, only when it was built with one, a search flooder; the constructor
  with one argument builds no search flooder.
\<close>

record ('gf, 'sf) Mwpm =
  flooder :: 'gf
  search_flooder :: "'sf option"

definition to_mwpm ::
  "('wi, 'swi, 'mg, 'sg, 'gf, 'sf) collaborators \<Rightarrow> IntermediateWeightedGraph \<Rightarrow> 'wi
     \<Rightarrow> ('gf, 'sf) Mwpm" where
  "to_mwpm ext g num_distinct_weights =
     (if num_observables g > sizeof_obs_int ext * 8
      then
        (let mwpm = \<lparr>flooder = GraphFlooder_new ext (to_matching_graph ext g num_distinct_weights),
                     search_flooder =
                       Some (SearchFlooder_new ext (to_search_graph ext g num_distinct_weights))\<rparr>
         in mwpm\<lparr>flooder :=
              sync_negative_weight_observables_and_detection_events ext (flooder mwpm)\<rparr>)
      else
        (let mwpm = \<lparr>flooder = GraphFlooder_new ext (to_matching_graph ext g num_distinct_weights),
                     search_flooder = None\<rparr>
         in mwpm\<lparr>flooder :=
              sync_negative_weight_observables_and_detection_events ext (flooder mwpm)\<rparr>))"

subsection \<open>Error mechanisms of a model, as the specification reads them\<close>

text \<open>
  The specification speaks of error mechanisms: probability, triggered detectors and
  flipped observables. In the flattened model an instruction with probability \<open>p\<close>
  holds one mechanism for each group of targets between separators. The definitions
  of this subsection follow that reading; they are compared with the loop of the code
  below.
\<close>

fun split_components :: "DemTarget list \<Rightarrow> DemTarget list list" where
  "split_components [] = [[]]"
| "split_components (Separator # ts) = [] # split_components ts"
| "split_components (t # ts) =
     (case split_components ts of [] \<Rightarrow> [[t]] | c # cs \<Rightarrow> (t # c) # cs)"

fun component_detectors :: "DemTarget list \<Rightarrow> size_t list" where
  "component_detectors [] = []"
| "component_detectors (RelativeDetectorId d # ts) = d # component_detectors ts"
| "component_detectors (t # ts) = component_detectors ts"

fun component_observables :: "DemTarget list \<Rightarrow> size_t list" where
  "component_observables [] = []"
| "component_observables (ObservableId l # ts) = l # component_observables ts"
| "component_observables (t # ts) = component_observables ts"

type_synonym error_mechanism = "real \<times> size_t list \<times> size_t list"

definition instruction_mechanisms :: "DemInstruction \<Rightarrow> error_mechanism list" where
  "instruction_mechanisms instruction =
     map (\<lambda>c. (arg_data instruction ! 0, component_detectors c, component_observables c))
       (split_components (target_data instruction))"

definition error_mechanisms :: "DetectorErrorModel \<Rightarrow> error_mechanism list" where
  "error_mechanisms detector_error_model =
     concat (map instruction_mechanisms (flattened_error_instructions detector_error_model))"

definition handle_mechanism ::
  "error_mechanism \<Rightarrow> IntermediateWeightedGraph \<Rightarrow> error + IntermediateWeightedGraph" where
  "handle_mechanism m g = (case m of (p, dets, obs) \<Rightarrow> handle_dem_instruction p dets obs g)"

definition skipped :: "error_mechanism \<Rightarrow> bool" where
  "skipped m = (case m of (p, dets, obs) \<Rightarrow> p \<le> 0 \<or> length dets = 0 \<or> 3 \<le> length dets)"

subsection \<open>The same expressions in double arithmetic\<close>

text \<open>
  Everything above reads \<^verbatim>\<open>double\<close> as \<open>real\<close>. Where rounding, overflow and NaN decide a
  statement, the expressions of \<^verbatim>\<open>merge_weights\<close> are read in IEEE 754 binary64
  arithmetic instead, as defined in this subsection.
\<close>

text \<open>
  A double is a finite number, an infinity or a NaN. The two zeros are not told apart
  and a NaN carries no sign or payload.
\<close>

datatype double = Finite real | PInf | NInf | NaN

text \<open>
  Rounding to nearest, ties to even, in the binary64 format: 53 significant bits,
  least exponent \<open>-1022\<close> (below it the spacing stays \<open>2\<^sup>-\<^sup>1\<^sup>0\<^sup>7\<^sup>4\<close>, the subnormal numbers),
  and overflow to an infinity from \<open>2\<^sup>1\<^sup>0\<^sup>2\<^sup>4 - 2\<^sup>9\<^sup>7\<^sup>0\<close> on, half a unit above the largest
  finite double.
\<close>

definition round_half_even :: "real \<Rightarrow> int" where
  "round_half_even y =
     (let f = \<lfloor>y\<rfloor> in
      if y - of_int f < 1 / 2 then f
      else if 1 / 2 < y - of_int f then f + 1
      else if even f then f else f + 1)"

definition round_to_double :: "real \<Rightarrow> real" where
  "round_to_double x =
     (if x = 0 then 0
      else
        (let e = max \<lfloor>log 2 \<bar>x\<bar>\<rfloor> (- 1022);
             ulp = 2 powr of_int (e - 52)
         in ulp * of_int (round_half_even (x / ulp))))"

definition fl :: "real \<Rightarrow> double" where
  "fl x =
     (if 2 ^ 1024 - 2 ^ 970 \<le> \<bar>x\<bar> then (if 0 < x then PInf else NInf)
      else Finite (round_to_double x))"

text \<open>
  The operations of the code on doubles. Addition, subtraction, multiplication and
  division round the exact result; the special values follow IEEE 754. A division of a
  non-zero number by zero takes the zero as positive.
\<close>

fun fp_neg :: "double \<Rightarrow> double" where
  "fp_neg (Finite a) = Finite (- a)"
| "fp_neg PInf = NInf"
| "fp_neg NInf = PInf"
| "fp_neg NaN = NaN"


fun fp_add :: "double \<Rightarrow> double \<Rightarrow> double" where
  "fp_add NaN y = NaN"
| "fp_add x NaN = NaN"
| "fp_add (Finite a) (Finite b) = fl (a + b)"
| "fp_add PInf NInf = NaN"
| "fp_add NInf PInf = NaN"
| "fp_add PInf y = PInf"
| "fp_add NInf y = NInf"
| "fp_add (Finite a) y = y"

definition fp_sub :: "double \<Rightarrow> double \<Rightarrow> double" where
  "fp_sub x y = fp_add x (fp_neg y)"

fun fp_sign :: "double \<Rightarrow> real" where
  "fp_sign (Finite a) = sgn a"
| "fp_sign PInf = 1"
| "fp_sign NInf = - 1"
| "fp_sign NaN = 0"

fun fp_mul :: "double \<Rightarrow> double \<Rightarrow> double" where
  "fp_mul NaN y = NaN"
| "fp_mul x NaN = NaN"
| "fp_mul (Finite a) (Finite b) = fl (a * b)"
| "fp_mul x y =
     (if fp_sign x * fp_sign y = 0 then NaN
      else if 0 < fp_sign x * fp_sign y then PInf else NInf)"

fun fp_div :: "double \<Rightarrow> double \<Rightarrow> double" where
  "fp_div NaN y = NaN"
| "fp_div x NaN = NaN"
| "fp_div (Finite a) (Finite b) =
     (if b = 0 then (if a = 0 then NaN else if 0 < a then PInf else NInf)
      else fl (a / b))"
| "fp_div (Finite a) y = Finite 0"
| "fp_div x (Finite b) = (if 0 \<le> b then x else fp_neg x)"
| "fp_div x y = NaN"

text \<open>
  \<^verbatim>\<open>std::min(x, y)\<close> is \<^verbatim>\<open>(y < x) ? y : x\<close>, and \<open><\<close> is false when an operand is a NaN.
\<close>

fun fp_less :: "double \<Rightarrow> double \<Rightarrow> bool" where
  "fp_less (Finite a) (Finite b) = (a < b)"
| "fp_less (Finite a) PInf = True"
| "fp_less NInf (Finite b) = True"
| "fp_less NInf PInf = True"
| "fp_less x y = False"

definition fp_min :: "double \<Rightarrow> double \<Rightarrow> double" where
  "fp_min x y = (if fp_less y x then y else x)"









subsection \<open>Concrete inputs\<close>

text \<open>
  A graph of three nodes with one edge between nodes 0 and 1 and a boundary edge on
  node 0; node 2 is isolated.
\<close>

definition example_graph :: IntermediateWeightedGraph where
  "example_graph =
     \<lparr>nodes = [[\<lparr>node = Some 1, weight = 0, observables = [0]\<rparr>,
                \<lparr>node = None, weight = 0, observables = [1]\<rparr>],
               [\<lparr>node = Some 0, weight = 0, observables = [0]\<rparr>],
               []],
      num_nodes = 3, num_observables = 2\<rparr>"

text \<open>A graph with \<open>n\<close> nodes and no edge.\<close>

definition empty_graph :: "size_t \<Rightarrow> size_t \<Rightarrow> IntermediateWeightedGraph" where
  "empty_graph n k = \<lparr>nodes = replicate (unat n) [], num_nodes = n, num_observables = k\<rparr>"

definition example_model :: DetectorErrorModel where
  "example_model =
     \<lparr>count_detectors = 3, count_observables = 1,
      flattened_error_instructions =
        [\<lparr>arg_data = [1 / 2],
          target_data = [RelativeDetectorId 0, RelativeDetectorId 1, ObservableId 0, Separator,
                         Separator,
                         RelativeDetectorId 0, RelativeDetectorId 1, RelativeDetectorId 2, Separator,
                         RelativeDetectorId 2]\<rparr>,
         \<lparr>arg_data = [0], target_data = [RelativeDetectorId 0]\<rparr>]\<rparr>"

section \<open>Properties of merge_weights\<close>






text \<open>
  C3. \<open>merge_weights\<close> is commutative: \<open>merge_weights a b = merge_weights b a\<close> for all
  weights \<open>a\<close> and \<open>b\<close> (the code's expression, evaluated over the reals).
\<close>

theorem merge_weights_commutative: "merge_weights a b = merge_weights b a"
  by (simp add: merge_weights_def Let_def mult.commute min.commute add.commute abs_minus_commute)

section \<open>Rounding and overflow at concrete doubles\<close>

text \<open>The operations at infinities and NaN.\<close>

lemma fp_special_values:
  "fp_mul PInf NInf = NInf" "fp_mul PInf (Finite 0) = NaN" "fp_mul (Finite (- 1)) NInf = PInf"
  "fp_mul (Finite 0) NInf = NaN" "fp_mul NInf NInf = PInf" "fp_mul PInf (Finite 2) = PInf"
  "fp_div PInf NInf = NaN" "fp_div PInf (Finite (- 2)) = NInf" "fp_div (Finite 3) NInf = Finite 0"
  "fp_div NInf (Finite 2) = NInf" "fp_div NInf (Finite (- 2)) = PInf"
  "fp_add (Finite 3) NInf = NInf" "fp_add PInf (Finite 3) = PInf" "fp_add PInf PInf = PInf"
  "fp_add NInf NInf = NInf" "fp_add PInf NInf = NaN" "fp_sub PInf PInf = NaN"
  "fp_less PInf PInf = False" "fp_less (Finite 0) PInf" "\<not> fp_less PInf (Finite 0)"
  "fp_less NInf (Finite 0)" "\<not> fp_less NaN (Finite 0)" "\<not> fp_less (Finite 0) NaN"
  "fp_min PInf PInf = PInf" "fp_min (Finite 1) PInf = Finite 1" "fp_min PInf (Finite 1) = Finite 1"
  by (simp_all add: fp_sub_def fp_min_def)
























section \<open>The index checks\<close>

text \<open>Reading the \<^verbatim>\<open>size_t\<close> comparisons of the two guards as comparisons of numbers.\<close>

lemma unat_vector_size: "length xs < 2 ^ 64 \<Longrightarrow> unat (vector_size xs) = length xs"
  by (simp add: vector_size_def unat_of_nat)

lemma unat_max: "unat (max u v) = max (unat u) (unat v)" for u v :: size_t
  by (simp add: max_def word_le_nat_alt)

lemma unat_minus_1: "unat (- 1 :: size_t) = 2 ^ 64 - 1"
  by (simp add: unsigned_minus_1_eq_mask mask_eq_exp_minus_1)

lemma unat_plus_one: "unat (x + 1) = (if x = - 1 then 0 else unat x + 1)" for x :: size_t
proof (cases "x = - 1")
  case True
  then show ?thesis by simp
next
  case False
  then have "x + 1 \<noteq> 0" using max_word_wrap by blast
  then have "unat (1 + x) = Suc (unat x)" by (simp add: unatSuc add.commute)
  then show ?thesis using False by (simp add: add.commute)
qed

lemma edge_guard_in_range:
  assumes "length xs < 2 ^ 64" "unat u < length xs" "unat v < length xs"
  shows "\<not> (max u v + 1 > (vector_size xs))"
proof -
  have "unat (max u v) < length xs" using assms by (simp add: unat_max)
  moreover from this assms(1) have "max u v \<noteq> - 1"
    by (auto simp: unat_minus_1)
  ultimately show ?thesis
    using assms(1) by (simp add: word_less_nat_alt unat_vector_size unat_plus_one)
qed

lemma boundary_guard_in_range:
  assumes "length xs < 2 ^ 64" "unat u < length xs"
  shows "\<not> (u > vector_size xs - 1)"
proof -
  have "vector_size xs \<noteq> 0"
    using assms unat_vector_size [of xs] by (auto simp: unat_eq_0)
  then have "unat (vector_size xs - 1) = length xs - 1"
    using assms(1) by (simp add: unat_minus_one unat_vector_size)
  then show ?thesis using assms by (simp add: word_less_nat_alt)
qed

lemma edge_guard_out_of_range:
  assumes "length xs < 2 ^ 64" "length xs \<le> unat (max u v)" "max u v \<noteq> - 1"
  shows "max u v + 1 > (vector_size xs)"
  using assms by (simp add: word_less_nat_alt unat_vector_size unat_plus_one)

lemma boundary_guard_out_of_range:
  assumes "length xs < 2 ^ 64" "length xs \<le> unat u" "xs \<noteq> []"
  shows "u > vector_size xs - 1"
proof -
  have "vector_size xs \<noteq> 0"
    using assms unat_vector_size [of xs] by (auto simp: unat_eq_0)
  then have "unat (vector_size xs - 1) = length xs - 1"
    using assms(1) by (simp add: unat_minus_one unat_vector_size)
  moreover have "0 < length xs" using assms(3) by simp
  ultimately have "unat (vector_size xs - 1) < unat u" using assms(2) by linarith
  then show ?thesis by (simp add: word_less_nat_alt)
qed

section \<open>The operations on indices in range and out of range\<close>

lemma find_if_Some: "find_if P xs = Some i \<Longrightarrow> i < length xs \<and> P (xs ! i)"
proof (induction xs arbitrary: i)
  case Nil
  then show ?case by simp
next
  case (Cons x xs)
  then show ?case by (auto split: if_splits)
qed

lemma find_if_map_cong: "map P xs = map P ys \<Longrightarrow> find_if P xs = find_if P ys"
proof (induction xs arbitrary: ys)
  case Nil
  then show ?case by simp
next
  case (Cons x xs)
  then obtain y ys' where "ys = y # ys'" by (cases ys) auto
  with Cons show ?case by auto
qed

lemma map_update_same:
  assumes "i < length xs \<Longrightarrow> f y = f (xs ! i)"
  shows "map f (xs[i := y]) = map f xs"
proof (cases "i < length xs")
  case True
  then show ?thesis using assms by (simp add: map_update list_update_same_conv)
next
  case False
  then have "xs[i := y] = xs" by (simp add: list_update_beyond)
  then show ?thesis by simp
qed

lemma find_if_set_weight:
  "find_if (\<lambda>n. node n = x) (xs[i := (xs ! i)\<lparr>weight := w\<rparr>]) = find_if (\<lambda>n. node n = x) xs"
  by (rule find_if_map_cong, rule map_update_same) simp

lemma add_or_merge_edge_in_range:
  assumes "fits_size_t g" "unat u < length (nodes g)" "unat v < length (nodes g)"
  shows "add_or_merge_edge u v w obs g =
     (case find_if (\<lambda>neighbor. node neighbor = Some (unat v)) (nodes g ! unat u) of
           None \<Rightarrow>
             (let ns1 = (nodes g)[unat u := nodes g ! unat u @
                          [\<lparr>node = Some (unat v), weight = w, observables = obs\<rparr>]];
                  ns2 = ns1[unat v := ns1 ! unat v @
                          [\<lparr>node = Some (unat u), weight = w, observables = obs\<rparr>]]
              in Inr (g\<lparr>nodes := ns2\<rparr>))
         | Some i \<Rightarrow>
             (let new_weight = merge_weights (weight (nodes g ! unat u ! i)) w;
                  ns1 = (nodes g)[unat u :=
                          (nodes g ! unat u)[i := (nodes g ! unat u ! i)\<lparr>weight := new_weight\<rparr>]]
              in 
                (case find_if (\<lambda>neighbor. node neighbor = Some (unat u)) (ns1 ! unat v) of
                   None \<Rightarrow> Inr (g\<lparr>nodes := ns1\<rparr>)
                 | Some j \<Rightarrow>
                     Inr (g\<lparr>nodes := ns1[unat v :=
                            (ns1 ! unat v)[j := (ns1 ! unat v ! j)\<lparr>weight := new_weight\<rparr>]]\<rparr>))))"
  using assms edge_guard_in_range [of "nodes g" u v]
  by (simp add: add_or_merge_edge_def fits_size_t_def Let_def)

lemma add_or_merge_boundary_edge_in_range:
  assumes "fits_size_t g" "unat u < length (nodes g)"
  shows "add_or_merge_boundary_edge u w obs g =
        (case find_if (\<lambda>neighbor. node neighbor = None) (nodes g ! unat u) of
           None \<Rightarrow>
             Inr (g\<lparr>nodes := (nodes g)[unat u := nodes g ! unat u @
                    [\<lparr>node = None, weight = w, observables = obs\<rparr>]]\<rparr>)
         | Some i \<Rightarrow>
             Inr (g\<lparr>nodes := (nodes g)[unat u :=
                    (nodes g ! unat u)[i := (nodes g ! unat u ! i)
                       \<lparr>weight := merge_weights w (weight (nodes g ! unat u ! i))\<rparr>]]\<rparr>))"
  using assms boundary_guard_in_range [of "nodes g" u]
  by (simp add: add_or_merge_boundary_edge_def fits_size_t_def)

lemma add_or_merge_edge_invalid:
  assumes "fits_size_t g" "length (nodes g) \<le> unat (max u v)" "max u v \<noteq> - 1"
  shows "add_or_merge_edge u v w obs g = Inl (InvalidArgument (max u v) (num_nodes g))"
  using assms edge_guard_out_of_range [of "nodes g" u v]
  by (simp add: add_or_merge_edge_def fits_size_t_def Let_def)

lemma add_or_merge_boundary_edge_invalid:
  assumes "fits_size_t g" "length (nodes g) \<le> unat u" "nodes g \<noteq> []"
  shows "add_or_merge_boundary_edge u w obs g = Inl (InvalidArgument u (num_nodes g))"
  using assms boundary_guard_out_of_range [of "nodes g" u]
  by (simp add: add_or_merge_boundary_edge_def fits_size_t_def)

text \<open>
  Exactly when the two operations throw, for a node vector whose size fits \<^verbatim>\<open>size_t\<close>.
\<close>

lemma add_or_merge_edge_throws_iff:
  assumes "fits_size_t g"
  shows "add_or_merge_edge u v w obs g = Inl (InvalidArgument (max u v) (num_nodes g)) \<longleftrightarrow>
           length (nodes g) \<le> unat (max u v) \<and> max u v \<noteq> - 1"
proof (cases "length (nodes g) \<le> unat (max u v)")
  case True
  show ?thesis
  proof (cases "max u v = - 1")
    case m: True
    then have "add_or_merge_edge u v w obs g = Inl OutOfBounds"
      using True by (auto simp: add_or_merge_edge_def Let_def unat_max max_def split: if_splits)
    then show ?thesis using m by simp
  next
    case False
    then show ?thesis using True add_or_merge_edge_invalid [OF assms True False] by simp
  qed
next
  case False
  then have "unat u < length (nodes g)" "unat v < length (nodes g)"
    by (simp_all add: unat_max)
  then have "\<exists>g'. add_or_merge_edge u v w obs g = Inr g'"
    using assms by (simp add: add_or_merge_edge_in_range Let_def split: option.splits)
  then show ?thesis using False by auto
qed

lemma add_or_merge_boundary_edge_throws_iff:
  assumes "fits_size_t g"
  shows "add_or_merge_boundary_edge u w obs g = Inl (InvalidArgument u (num_nodes g)) \<longleftrightarrow>
           length (nodes g) \<le> unat u \<and> nodes g \<noteq> []"
proof (cases "length (nodes g) \<le> unat u")
  case True
  show ?thesis
  proof (cases "nodes g = []")
    case e: True
    have "\<not> u > (- 1 :: size_t)"
      by (simp add: not_less)
    then have "add_or_merge_boundary_edge u w obs g = Inl OutOfBounds"
      using e by (simp add: add_or_merge_boundary_edge_def vector_size_def)
    then show ?thesis using e by simp
  next
    case False
    then show ?thesis using True add_or_merge_boundary_edge_invalid [OF assms True False] by simp
  qed
next
  case False
  then have "\<exists>g'. add_or_merge_boundary_edge u w obs g = Inr g'"
    using assms by (simp add: add_or_merge_boundary_edge_in_range split: option.splits)
  then show ?thesis using False by auto
qed

text \<open>
  C2. The claim asks for an invalid-argument error on every out-of-range index, the
  graph with zero nodes included. The code does not give it there: on the graph with
  no nodes \<^verbatim>\<open>nodes.size() - 1\<close> wraps around to the largest \<^verbatim>\<open>size_t\<close>, the guard of
  \<^verbatim>\<open>add_or_merge_boundary_edge\<close> is false for every \<open>u\<close>, and the code goes on to index
  the empty vector. The guard of \<^verbatim>\<open>add_or_merge_edge\<close> wraps in the same way when the
  larger index is the largest \<^verbatim>\<open>size_t\<close>. On all other out-of-range inputs the error
  is raised, and in range it is not: \<open>add_or_merge_edge_throws_iff\<close>,
  \<open>add_or_merge_boundary_edge_throws_iff\<close>.
\<close>

theorem invalid_argument_missed:
  "add_or_merge_boundary_edge 0 1 [] \<lparr>nodes = [], num_nodes = 0, num_observables = 0\<rparr>
     = Inl OutOfBounds \<and>
   add_or_merge_edge (- 1) 0 1 [] \<lparr>nodes = [[]], num_nodes = 1, num_observables = 0\<rparr>
     = Inl OutOfBounds"
  by (simp add: add_or_merge_boundary_edge_def add_or_merge_edge_def vector_size_def unat_minus_1)

section \<open>Inserting a new edge\<close>

text \<open>
  C1. For an error mechanism with probability \<open>0 < p < 1\<close>: if it triggers two
  detectors \<open>u\<close> and \<open>v\<close>, both in range, with no edge to \<open>v\<close> recorded at \<open>u\<close>, then
  \<open>handle_dem_instruction p [u, v] obs\<close> succeeds and appends to the adjacency list of
  \<open>u\<close> an entry for \<open>v\<close>, and to that of \<open>v\<close> an entry for \<open>u\<close>, both with weight
  \<open>ln ((1 - p) / p)\<close> and observables \<open>obs\<close>, and changes nothing else; if it triggers
  one detector \<open>u\<close> in range with no boundary edge, then \<open>handle_dem_instruction p [u] obs\<close>
  appends a boundary entry with that weight and \<open>obs\<close> to the adjacency list of \<open>u\<close>
  and changes nothing else.
\<close>

theorem handle_dem_instruction_inserts:
  assumes "0 < p" "p < 1" "fits_size_t g"
  shows "(unat u < length (nodes g) \<and> unat v < length (nodes g) \<and>
          find_if (\<lambda>neighbor. node neighbor = Some (unat v)) (nodes g ! unat u) = None \<longrightarrow>
            (let e_uv = \<lparr>node = Some (unat v), weight = ln ((1 - p) / p), observables = obs\<rparr>;
                 e_vu = \<lparr>node = Some (unat u), weight = ln ((1 - p) / p), observables = obs\<rparr>;
                 ns1 = (nodes g)[unat u := nodes g ! unat u @ [e_uv]];
                 g' = g\<lparr>nodes := ns1[unat v := ns1 ! unat v @ [e_vu]]\<rparr>
             in handle_dem_instruction p [u, v] obs g = Inr g' \<and>
                e_uv \<in> set (nodes g' ! unat u) \<and> e_vu \<in> set (nodes g' ! unat v) \<and>
                (u \<noteq> v \<longrightarrow> nodes g' ! unat u = nodes g ! unat u @ [e_uv] \<and>
                             nodes g' ! unat v = nodes g ! unat v @ [e_vu]) \<and>
                length (nodes g') = length (nodes g) \<and>
                (\<forall>k. k \<noteq> unat u \<and> k \<noteq> unat v \<longrightarrow> nodes g' ! k = nodes g ! k))) \<and>
         (unat u < length (nodes g) \<and>
          find_if (\<lambda>neighbor. node neighbor = None) (nodes g ! unat u) = None \<longrightarrow>
            (let e_b = \<lparr>node = None, weight = ln ((1 - p) / p), observables = obs\<rparr>;
                 g' = g\<lparr>nodes := (nodes g)[unat u := nodes g ! unat u @ [e_b]]\<rparr>
             in handle_dem_instruction p [u] obs g = Inr g' \<and>
                nodes g' ! unat u = nodes g ! unat u @ [e_b] \<and>
                length (nodes g') = length (nodes g) \<and>
                (\<forall>k. k \<noteq> unat u \<longrightarrow> nodes g' ! k = nodes g ! k)))"
proof (intro conjI impI)
  assume a: "unat u < length (nodes g) \<and> unat v < length (nodes g) \<and>
          find_if (\<lambda>neighbor. node neighbor = Some (unat v)) (nodes g ! unat u) = None"
  then have "handle_dem_instruction p [u, v] obs g = add_or_merge_edge u v (ln ((1 - p) / p)) obs g"
    by (simp add: handle_dem_instruction_def log_odds_def)
  moreover have "u \<noteq> v \<Longrightarrow> unat u \<noteq> unat v"
    by (simp add: word_unat_eq_iff)
  ultimately show "let e_uv = \<lparr>node = Some (unat v), weight = ln ((1 - p) / p), observables = obs\<rparr>;
                 e_vu = \<lparr>node = Some (unat u), weight = ln ((1 - p) / p), observables = obs\<rparr>;
                 ns1 = (nodes g)[unat u := nodes g ! unat u @ [e_uv]];
                 g' = g\<lparr>nodes := ns1[unat v := ns1 ! unat v @ [e_vu]]\<rparr>
             in handle_dem_instruction p [u, v] obs g = Inr g' \<and>
                e_uv \<in> set (nodes g' ! unat u) \<and> e_vu \<in> set (nodes g' ! unat v) \<and>
                (u \<noteq> v \<longrightarrow> nodes g' ! unat u = nodes g ! unat u @ [e_uv] \<and>
                             nodes g' ! unat v = nodes g ! unat v @ [e_vu]) \<and>
                length (nodes g') = length (nodes g) \<and>
                (\<forall>k. k \<noteq> unat u \<and> k \<noteq> unat v \<longrightarrow> nodes g' ! k = nodes g ! k)"
    using a assms(3) by (simp add: add_or_merge_edge_in_range Let_def nth_list_update)
next
  assume a: "unat u < length (nodes g) \<and>
          find_if (\<lambda>neighbor. node neighbor = None) (nodes g ! unat u) = None"
  then have "handle_dem_instruction p [u] obs g = add_or_merge_boundary_edge u (ln ((1 - p) / p)) obs g"
    by (simp add: handle_dem_instruction_def log_odds_def)
  then show "let e_b = \<lparr>node = None, weight = ln ((1 - p) / p), observables = obs\<rparr>;
                 g' = g\<lparr>nodes := (nodes g)[unat u := nodes g ! unat u @ [e_b]]\<rparr>
             in handle_dem_instruction p [u] obs g = Inr g' \<and>
                nodes g' ! unat u = nodes g ! unat u @ [e_b] \<and>
                length (nodes g') = length (nodes g) \<and>
                (\<forall>k. k \<noteq> unat u \<longrightarrow> nodes g' ! k = nodes g ! k)"
    using a assms(3) by (simp add: add_or_merge_boundary_edge_in_range Let_def)
qed

theorem handle_dem_instruction_inserts_witness:
  "(0::real) < 1 / 2 \<and> (1::real) / 2 < 1 \<and> fits_size_t example_graph \<and>
   unat (2::size_t) < length (nodes example_graph) \<and> unat (1::size_t) < length (nodes example_graph) \<and>
   find_if (\<lambda>neighbor. node neighbor = Some (unat (1::size_t))) (nodes example_graph ! unat (2::size_t)) = None \<and>
   find_if (\<lambda>neighbor. node neighbor = None) (nodes example_graph ! unat (2::size_t)) = None \<and>
   handle_dem_instruction (1 / 2) [2, 1] [7] example_graph =
     Inr \<lparr>nodes = [[\<lparr>node = Some 1, weight = 0, observables = [0]\<rparr>,
                     \<lparr>node = None, weight = 0, observables = [1]\<rparr>],
                    [\<lparr>node = Some 0, weight = 0, observables = [0]\<rparr>,
                     \<lparr>node = Some 2, weight = 0, observables = [7]\<rparr>],
                    [\<lparr>node = Some 1, weight = 0, observables = [7]\<rparr>]],
          num_nodes = 3, num_observables = 2\<rparr> \<and>
   handle_dem_instruction (1 / 2) [2] [7] example_graph =
     Inr \<lparr>nodes = [[\<lparr>node = Some 1, weight = 0, observables = [0]\<rparr>,
                     \<lparr>node = None, weight = 0, observables = [1]\<rparr>],
                    [\<lparr>node = Some 0, weight = 0, observables = [0]\<rparr>],
                    [\<lparr>node = None, weight = 0, observables = [7]\<rparr>]],
          num_nodes = 3, num_observables = 2\<rparr>"
proof -
  have h: "(0::real) < 1 / 2" "(1::real) / 2 < 1" "fits_size_t example_graph"
    by (simp_all add: fits_size_t_def example_graph_def)
  show ?thesis
    using handle_dem_instruction_inserts [OF h, of 2 1 "[7]"]
    by (simp add: example_graph_def Let_def fits_size_t_def)
qed

section \<open>Merging into an existing edge\<close>

lemma nth_set_weight:
  "weight (xs[i := (xs ! i)\<lparr>weight := w\<rparr>] ! l) = (if l = i \<and> i < length xs then w else weight (xs ! l))"
  by (cases "i < length xs") (auto simp: nth_list_update list_update_beyond)

lemma merge_edge_frame:
  assumes "fits_size_t g" "unat u < length (nodes g)" "unat v < length (nodes g)"
    and f: "find_if (\<lambda>neighbor. node neighbor = Some (unat v)) (nodes g ! unat u) = Some i"
  shows "\<exists>g'. (\<forall>obs. add_or_merge_edge u v w obs g = Inr g') \<and>
                  map (map node) (nodes g') = map (map node) (nodes g) \<and>
                  map (map observables) (nodes g') = map (map observables) (nodes g) \<and>
                  num_nodes g' = num_nodes g \<and> num_observables g' = num_observables g \<and>
                  weight (nodes g' ! unat u ! i) = merge_weights (weight (nodes g ! unat u ! i)) w \<and>
                  (\<forall>j. find_if (\<lambda>neighbor. node neighbor = Some (unat u)) (nodes g ! unat v) = Some j \<longrightarrow>
                         weight (nodes g' ! unat v ! j) = merge_weights (weight (nodes g ! unat u ! i)) w) \<and>
                  (\<forall>k l. k < length (nodes g) \<and> l < length (nodes g ! k) \<and>
                         weight (nodes g' ! k ! l) \<noteq> weight (nodes g ! k ! l) \<longrightarrow>
                           k = unat u \<and> l = i \<or>
                           k = unat v \<and>
                           find_if (\<lambda>neighbor. node neighbor = Some (unat u)) (nodes g ! unat v) = Some l)"
proof -
  let ?U = "unat u" and ?V = "unat v"
  let ?nw = "merge_weights (weight (nodes g ! ?U ! i)) w"
  let ?ns1 = "(nodes g)[?U := (nodes g ! ?U)[i := (nodes g ! ?U ! i)\<lparr>weight := ?nw\<rparr>]]"
  let ?F = "find_if (\<lambda>neighbor. node neighbor = Some ?U) (nodes g ! ?V)"
  let ?ns2 = "case ?F of None \<Rightarrow> ?ns1
               | Some j \<Rightarrow> ?ns1[?V := (?ns1 ! ?V)[j := (?ns1 ! ?V ! j)\<lparr>weight := ?nw\<rparr>]]"
  from f have i: "i < length (nodes g ! ?U)" using find_if_Some by fastforce
  have F1: "find_if (\<lambda>neighbor. node neighbor = Some ?U) (?ns1 ! ?V) = ?F"
    using assms(2,3) by (cases "?U = ?V") (simp_all add: find_if_set_weight)
  have run: "add_or_merge_edge u v w obs g = Inr (g\<lparr>nodes := ?ns2\<rparr>)" for obs
    using assms by (simp add: add_or_merge_edge_in_range Let_def F1 split: option.splits)
  have ns1_nth: "?ns1 ! k = (if k = ?U then (nodes g ! ?U)[i := (nodes g ! ?U ! i)\<lparr>weight := ?nw\<rparr>] else nodes g ! k)" for k
    using assms(2) by (simp add: nth_list_update)
  have nd1: "map (map f) ?ns1 = map (map f) (nodes g)" if "\<And>n x. f (n\<lparr>weight := x\<rparr>) = f n" for f :: "Neighbor \<Rightarrow> 'b"
    by (rule map_update_same, rule map_update_same) (simp add: that)
  have nd2: "map (map f) ?ns2 = map (map f) (nodes g)" if "\<And>n x. f (n\<lparr>weight := x\<rparr>) = f n" for f :: "Neighbor \<Rightarrow> 'b"
  proof (cases ?F)
    case None
    then show ?thesis using nd1 [OF that] by simp
  next
    case (Some j)
    have "map (map f) (?ns1[?V := (?ns1 ! ?V)[j := (?ns1 ! ?V ! j)\<lparr>weight := ?nw\<rparr>]]) = map (map f) ?ns1"
      by (rule map_update_same, rule map_update_same) (simp add: that)
    then show ?thesis using nd1 [OF that] Some by simp
  qed
  have wu: "weight (?ns2 ! ?U ! i) = ?nw"
    using assms(2,3) i by (auto split: option.splits simp: nth_list_update nth_set_weight)
  have wv: "\<forall>j. ?F = Some j \<longrightarrow> weight (?ns2 ! ?V ! j) = ?nw"
  proof (intro allI impI)
    fix j assume j: "?F = Some j"
    show "weight (?ns2 ! ?V ! j) = ?nw"
      using assms(2,3) find_if_Some [OF j] by (auto simp: j nth_list_update nth_set_weight)
  qed
  have frame: "\<forall>k l. k < length (nodes g) \<and> l < length (nodes g ! k) \<and>
                   weight (?ns2 ! k ! l) \<noteq> weight (nodes g ! k ! l) \<longrightarrow>
                     k = ?U \<and> l = i \<or> k = ?V \<and> ?F = Some l"
    using assms(2,3) by (auto split: option.splits if_splits simp: nth_list_update nth_set_weight)
  define g' where "g' = g\<lparr>nodes := ?ns2\<rparr>"
  have ns: "nodes g' = ?ns2" and "num_nodes g' = num_nodes g"
    and "num_observables g' = num_observables g"
    by (simp_all add: g'_def)
  moreover have "\<forall>obs. add_or_merge_edge u v w obs g = Inr g'"
    using run by (simp add: g'_def)
  moreover have "map (map node) (nodes g') = map (map node) (nodes g)"
    using nd2 [of node] by (simp add: ns)
  moreover have "map (map observables) (nodes g') = map (map observables) (nodes g)"
    using nd2 [of observables] by (simp add: ns)
  moreover have "weight (nodes g' ! ?U ! i) = ?nw"
    unfolding ns by (rule wu)
  moreover have "\<forall>j. ?F = Some j \<longrightarrow> weight (nodes g' ! ?V ! j) = ?nw"
    unfolding ns by (rule wv)
  moreover have "\<forall>k l. k < length (nodes g) \<and> l < length (nodes g ! k) \<and>
                   weight (nodes g' ! k ! l) \<noteq> weight (nodes g ! k ! l) \<longrightarrow>
                     k = ?U \<and> l = i \<or> k = ?V \<and> ?F = Some l"
    unfolding ns by (rule frame)
  ultimately show ?thesis by blast
qed

lemma merge_boundary_frame:
  assumes "fits_size_t g" "unat u < length (nodes g)"
    and f: "find_if (\<lambda>neighbor. node neighbor = None) (nodes g ! unat u) = Some i"
  shows "\<exists>g'. (\<forall>obs. add_or_merge_boundary_edge u w obs g = Inr g') \<and>
                  map (map node) (nodes g') = map (map node) (nodes g) \<and>
                  map (map observables) (nodes g') = map (map observables) (nodes g) \<and>
                  num_nodes g' = num_nodes g \<and> num_observables g' = num_observables g \<and>
                  weight (nodes g' ! unat u ! i) = merge_weights w (weight (nodes g ! unat u ! i)) \<and>
                  (\<forall>k l. k < length (nodes g) \<and> l < length (nodes g ! k) \<and>
                         weight (nodes g' ! k ! l) \<noteq> weight (nodes g ! k ! l) \<longrightarrow>
                           k = unat u \<and> l = i)"
proof -
  let ?U = "unat u"
  let ?nw = "merge_weights w (weight (nodes g ! ?U ! i))"
  let ?ns1 = "(nodes g)[?U := (nodes g ! ?U)[i := (nodes g ! ?U ! i)\<lparr>weight := ?nw\<rparr>]]"
  from f have i: "i < length (nodes g ! ?U)" using find_if_Some by fastforce
  have run: "add_or_merge_boundary_edge u w obs g = Inr (g\<lparr>nodes := ?ns1\<rparr>)" for obs
    using assms by (simp add: add_or_merge_boundary_edge_in_range)
  have nd1: "map (map f) ?ns1 = map (map f) (nodes g)" if "\<And>n x. f (n\<lparr>weight := x\<rparr>) = f n" for f :: "Neighbor \<Rightarrow> 'b"
    by (rule map_update_same, rule map_update_same) (simp add: that)
  have wu: "weight (?ns1 ! ?U ! i) = ?nw"
    using assms(2) i by (simp add: nth_set_weight)
  have frame: "\<forall>k l. k < length (nodes g) \<and> l < length (nodes g ! k) \<and>
                   weight (?ns1 ! k ! l) \<noteq> weight (nodes g ! k ! l) \<longrightarrow>
                     k = ?U \<and> l = i"
    using assms(2) by (auto split: if_splits simp: nth_list_update nth_set_weight)
  define g' where "g' = g\<lparr>nodes := ?ns1\<rparr>"
  have ns: "nodes g' = ?ns1" and "num_nodes g' = num_nodes g"
    and "num_observables g' = num_observables g"
    by (simp_all add: g'_def)
  moreover have "\<forall>obs. add_or_merge_boundary_edge u w obs g = Inr g'"
    using run by (simp add: g'_def)
  moreover have "map (map node) (nodes g') = map (map node) (nodes g)"
    using nd1 [of node] by (simp add: ns)
  moreover have "map (map observables) (nodes g') = map (map observables) (nodes g)"
    using nd1 [of observables] by (simp add: ns)
  moreover have "weight (nodes g' ! ?U ! i) = ?nw"
    unfolding ns by (rule wu)
  moreover have "\<forall>k l. k < length (nodes g) \<and> l < length (nodes g ! k) \<and>
                   weight (nodes g' ! k ! l) \<noteq> weight (nodes g ! k ! l) \<longrightarrow>
                     k = ?U \<and> l = i"
    unfolding ns by (rule frame)
  ultimately show ?thesis by blast
qed

text \<open>
  C9. When \<open>add_or_merge_edge\<close> finds an edge to \<open>v\<close> at position \<open>i\<close> of the adjacency
  list of \<open>u\<close>, or \<open>add_or_merge_boundary_edge\<close> finds a boundary edge at position \<open>b\<close>,
  the call succeeds, its result does not depend on the observables passed, every
  stored neighbour and every stored observables list stays as it was, and the only
  weights that change are the one found (and, for an edge, the first entry for \<open>u\<close>
  in the list of \<open>v\<close>), which become the merge of the old weight and the new one.
\<close>

theorem merge_changes_only_weight:
  assumes "fits_size_t g"
  shows "(unat u < length (nodes g) \<and> unat v < length (nodes g) \<and>
          find_if (\<lambda>neighbor. node neighbor = Some (unat v)) (nodes g ! unat u) = Some i \<longrightarrow>
            (\<exists>g'. (\<forall>obs. add_or_merge_edge u v w obs g = Inr g') \<and>
                  map (map node) (nodes g') = map (map node) (nodes g) \<and>
                  map (map observables) (nodes g') = map (map observables) (nodes g) \<and>
                  num_nodes g' = num_nodes g \<and> num_observables g' = num_observables g \<and>
                  weight (nodes g' ! unat u ! i) = merge_weights (weight (nodes g ! unat u ! i)) w \<and>
                  (\<forall>j. find_if (\<lambda>neighbor. node neighbor = Some (unat u)) (nodes g ! unat v) = Some j \<longrightarrow>
                         weight (nodes g' ! unat v ! j) = merge_weights (weight (nodes g ! unat u ! i)) w) \<and>
                  (\<forall>k l. k < length (nodes g) \<and> l < length (nodes g ! k) \<and>
                         weight (nodes g' ! k ! l) \<noteq> weight (nodes g ! k ! l) \<longrightarrow>
                           k = unat u \<and> l = i \<or>
                           k = unat v \<and>
                           find_if (\<lambda>neighbor. node neighbor = Some (unat u)) (nodes g ! unat v) = Some l))) \<and>
         (unat u < length (nodes g) \<and>
          find_if (\<lambda>neighbor. node neighbor = None) (nodes g ! unat u) = Some b \<longrightarrow>
            (\<exists>g'. (\<forall>obs. add_or_merge_boundary_edge u w obs g = Inr g') \<and>
                  map (map node) (nodes g') = map (map node) (nodes g) \<and>
                  map (map observables) (nodes g') = map (map observables) (nodes g) \<and>
                  num_nodes g' = num_nodes g \<and> num_observables g' = num_observables g \<and>
                  weight (nodes g' ! unat u ! b) = merge_weights w (weight (nodes g ! unat u ! b)) \<and>
                  (\<forall>k l. k < length (nodes g) \<and> l < length (nodes g ! k) \<and>
                         weight (nodes g' ! k ! l) \<noteq> weight (nodes g ! k ! l) \<longrightarrow>
                           k = unat u \<and> l = b)))"
  using merge_edge_frame [OF assms, of u v i w] merge_boundary_frame [OF assms, of u b w]
  by (intro conjI impI) (elim conjE, assumption)+

theorem merge_changes_only_weight_witness:
  "fits_size_t example_graph \<and>
   unat (0::size_t) < length (nodes example_graph) \<and> unat (1::size_t) < length (nodes example_graph) \<and>
   find_if (\<lambda>neighbor. node neighbor = Some (unat (1::size_t))) (nodes example_graph ! unat (0::size_t)) = Some 0 \<and>
   find_if (\<lambda>neighbor. node neighbor = None) (nodes example_graph ! unat (0::size_t)) = Some 1 \<and>
   (\<exists>g'. (\<forall>obs. add_or_merge_edge 0 1 (ln 3) obs example_graph = Inr g') \<and>
         map (map observables) (nodes g') = map (map observables) (nodes example_graph) \<and>
         weight (nodes g' ! unat (0::size_t) ! 0) = merge_weights (weight (nodes example_graph ! unat (0::size_t) ! 0)) (ln 3)) \<and>
   (\<exists>g'. (\<forall>obs. add_or_merge_boundary_edge 0 (ln 3) obs example_graph = Inr g') \<and>
         map (map observables) (nodes g') = map (map observables) (nodes example_graph) \<and>
         weight (nodes g' ! unat (0::size_t) ! 1) = merge_weights (ln 3) (weight (nodes example_graph ! unat (0::size_t) ! 1)))"
proof -
  have h: "fits_size_t example_graph"
    by (simp add: fits_size_t_def example_graph_def)
  have e: "unat (0::size_t) < length (nodes example_graph) \<and> unat (1::size_t) < length (nodes example_graph) \<and>
     find_if (\<lambda>neighbor. node neighbor = Some (unat (1::size_t))) (nodes example_graph ! unat (0::size_t)) = Some 0"
    by (simp add: example_graph_def)
  have b: "unat (0::size_t) < length (nodes example_graph) \<and>
     find_if (\<lambda>neighbor. node neighbor = None) (nodes example_graph ! unat (0::size_t)) = Some 1"
    by (simp add: example_graph_def)
  show ?thesis
    using h e b merge_changes_only_weight [OF h, of 0 1 0 "ln 3" 1]
    by blast
qed

section \<open>Which error mechanisms reach the graph\<close>

lemma split_components_not_Nil: "split_components ts \<noteq> []"
  by (induction ts rule: split_components.induct) (auto split: list.splits)

lemma fold_err_append:
  "fold_err f (xs @ ys) s = (case fold_err f xs s of Inl e \<Rightarrow> Inl e | Inr s' \<Rightarrow> fold_err f ys s')"
  by (induction xs arbitrary: s) (auto split: sum.splits)

lemma fold_err_filter:
  assumes "\<And>x s. x \<in> set xs \<Longrightarrow> \<not> keep x \<Longrightarrow> f x s = Inr s"
  shows "fold_err f (filter keep xs) s = fold_err f xs s"
  using assms by (induction xs arbitrary: s) (auto split: sum.splits)

lemma handle_dem_instruction_skip:
  "length dets = 0 \<or> 3 \<le> length dets \<Longrightarrow> handle_dem_instruction p dets obs g = Inr g"
  by (auto simp: handle_dem_instruction_def)

lemma not_skipped_iff:
  "\<not> skipped (p, dets, obs) \<longleftrightarrow> 0 < p \<and> (length dets = 1 \<or> length dets = 2)"
  unfolding skipped_def prod.case by linarith

lemma handle_mechanism_skipped:
  "skipped (p, dets, obs) \<Longrightarrow> 0 < p \<Longrightarrow> handle_mechanism (p, dets, obs) g = Inr g"
  by (auto simp: skipped_def handle_mechanism_def handle_dem_instruction_skip)

text \<open>With a non-positive probability the loop leaves the graph alone.\<close>

lemma dem_targets_loop_nonpos:
  "p \<le> 0 \<Longrightarrow> \<exists>dets' obs'. dem_targets_loop p ts dets obs g = Inr (dets', obs', g)"
  by (induction p ts dets obs g rule: dem_targets_loop.induct) auto

text \<open>With a positive probability the loop handles the components one by one.\<close>

lemma dem_targets_loop_pos:
  assumes "0 < p"
  shows "(case dem_targets_loop p ts dets obs g of
            Inl e \<Rightarrow> Inl e
          | Inr (dets', obs', g') \<Rightarrow> handle_dem_instruction p dets' obs' g') =
         (case split_components ts of
            c # cs \<Rightarrow>
              fold_err handle_mechanism
                ((p, dets @ component_detectors c, obs @ component_observables c) #
                 map (\<lambda>c. (p, component_detectors c, component_observables c)) cs) g)"
  using assms
proof (induction p ts dets obs g rule: dem_targets_loop.induct)
  case (1 p dets obs g)
  then show ?case by (simp add: handle_mechanism_def split: sum.splits)
next
  case (2 p d ts dets obs g)
  then show ?case
    using split_components_not_Nil [of ts] by (auto split: list.splits)
next
  case (3 p l ts dets obs g)
  then show ?case
    using split_components_not_Nil [of ts] by (auto split: list.splits)
next
  case (4 p ts dets obs g)
  show ?case
  proof (cases "handle_dem_instruction p dets obs g")
    case (Inl e)
    then show ?thesis using 4 by (simp add: handle_mechanism_def)
  next
    case (Inr g')
    then show ?thesis
      using 4 split_components_not_Nil [of ts]
      by (auto simp: handle_mechanism_def split: list.splits)
  qed
qed

lemma dem_instruction_callback_mechanisms:
  assumes "arg_data instruction \<noteq> []"
  shows "dem_instruction_callback instruction g =
           fold_err handle_mechanism (filter (\<lambda>m. \<not> skipped m) (instruction_mechanisms instruction)) g"
proof -
  obtain p args where args: "arg_data instruction = p # args"
    using assms by (cases "arg_data instruction") auto
  let ?ms = "instruction_mechanisms instruction"
  have ms: "?ms = map (\<lambda>c. (p, component_detectors c, component_observables c))
                    (split_components (target_data instruction))"
    by (simp add: instruction_mechanisms_def args)
  show ?thesis
  proof (cases "0 < p")
    case True
    have "dem_instruction_callback instruction g = fold_err handle_mechanism ?ms g"
      using dem_targets_loop_pos [OF True, of "target_data instruction" "[]" "[]" g]
        split_components_not_Nil [of "target_data instruction"]
      by (auto simp: dem_instruction_callback_def args ms True split: list.splits sum.splits)
    also have "\<dots> = fold_err handle_mechanism (filter (\<lambda>m. \<not> skipped m) ?ms) g"
      by (rule fold_err_filter [symmetric]) (auto simp: ms True handle_mechanism_skipped)
    finally show ?thesis .
  next
    case False
    then have "filter (\<lambda>m. \<not> skipped m) ?ms = []"
      by (auto simp: ms skipped_def filter_empty_conv)
    moreover have "dem_instruction_callback instruction g = Inr g"
      using False dem_targets_loop_nonpos [of p "target_data instruction" "[]" "[]" g]
      by (auto simp: dem_instruction_callback_def args)
    ultimately show ?thesis by simp
  qed
qed

text \<open>
  C10. The graph built from a detector error model is the graph obtained by handling,
  in order, only the error mechanisms that are not skipped; a mechanism is skipped when
  its probability is not positive or when it triggers no detector or three or more.
  Skipped mechanisms leave no trace in the graph.
\<close>

theorem only_one_or_two_detectors_incorporated:
  assumes "\<forall>instruction \<in> set (flattened_error_instructions dem). arg_data instruction \<noteq> []"
  shows "detector_error_model_to_weighted_graph new_graph dem =
           fold_err handle_mechanism (filter (\<lambda>m. \<not> skipped m) (error_mechanisms dem))
             (new_graph (count_detectors dem) (count_observables dem))"
proof -
  have "fold_err dem_instruction_callback is g =
          fold_err handle_mechanism
            (filter (\<lambda>m. \<not> skipped m) (concat (map instruction_mechanisms is))) g"
    if "\<forall>instruction \<in> set is. arg_data instruction \<noteq> []" for "is" g
    using that
  proof (induction "is" arbitrary: g)
    case Nil
    then show ?case by simp
  next
    case (Cons i "is")
    then show ?case
      by (simp add: fold_err_append dem_instruction_callback_mechanisms split: sum.splits)
  qed
  then show ?thesis
    using assms by (simp add: detector_error_model_to_weighted_graph_def error_mechanisms_def)
qed

theorem only_one_or_two_detectors_incorporated_witness:
  "list_all (\<lambda>instruction. arg_data instruction \<noteq> [])
     (flattened_error_instructions example_model) \<and>
   detector_error_model_to_weighted_graph empty_graph example_model =
     Inr \<lparr>nodes = [[\<lparr>node = Some 1, weight = 0, observables = [0]\<rparr>],
                    [\<lparr>node = Some 0, weight = 0, observables = [0]\<rparr>],
                    [\<lparr>node = None, weight = 0, observables = []\<rparr>]],
          num_nodes = 3, num_observables = 1\<rparr>"
proof -
  have h: "\<forall>instruction \<in> set (flattened_error_instructions example_model). arg_data instruction \<noteq> []"
    by (simp add: example_model_def)
  have ms: "filter (\<lambda>m. \<not> skipped m) (error_mechanisms example_model) =
              [(1 / 2, [0, 1], [0]), (1 / 2, [2], [])]"
    by (simp add: example_model_def error_mechanisms_def instruction_mechanisms_def skipped_def)
  have g0: "empty_graph (count_detectors example_model) (count_observables example_model) =
              \<lparr>nodes = [[], [], []], num_nodes = 3, num_observables = 1\<rparr>"
  proof -
    have "replicate 3 [] = [[], [], []::Neighbor list]"
      by (simp add: numeral_3_eq_3)
    then show ?thesis
      by (simp add: example_model_def empty_graph_def)
  qed
  have run: "fold_err handle_mechanism [(1 / 2, [0, 1], [0]), (1 / 2, [2], [])]
               \<lparr>nodes = [[], [], []], num_nodes = 3, num_observables = 1\<rparr> =
             Inr \<lparr>nodes = [[\<lparr>node = Some 1, weight = 0, observables = [0]\<rparr>],
                    [\<lparr>node = Some 0, weight = 0, observables = [0]\<rparr>],
                    [\<lparr>node = None, weight = 0, observables = []\<rparr>]],
                    num_nodes = 3, num_observables = 1\<rparr>"
    by (simp add: handle_mechanism_def handle_dem_instruction_def add_or_merge_edge_def
        add_or_merge_boundary_edge_def vector_size_def log_odds_def)
  show ?thesis
    using h only_one_or_two_detectors_incorporated [OF h, of empty_graph, unfolded ms g0 run]
    by (simp add: list_all_iff)
qed

section \<open>When the search flooder is built\<close>

text \<open>
  C5. The decoder returned by \<open>to_mwpm\<close> holds a search flooder exactly when the number
  of observables of the graph exceeds \<^verbatim>\<open>sizeof(obs_int) * 8\<close>; it is then the search
  flooder over \<open>to_search_graph\<close>. In both cases the matching flooder is the one over
  \<open>to_matching_graph\<close>, after the synchronisation of negative weights.
\<close>

theorem to_mwpm_search_flooder:
  "(search_flooder (to_mwpm ext g n) \<noteq> None) = (num_observables g > sizeof_obs_int ext * 8) \<and>
   search_flooder (to_mwpm ext g n) =
     (if num_observables g > sizeof_obs_int ext * 8
      then Some (SearchFlooder_new ext (to_search_graph ext g n)) else None) \<and>
   flooder (to_mwpm ext g n) =
     sync_negative_weight_observables_and_detection_events ext
       (GraphFlooder_new ext (to_matching_graph ext g n))"
  by (simp add: to_mwpm_def Let_def)

end
